theory Spec2Isabelle
  imports Complex_Main "HOL-Library.AList"
begin

section \<open>The external world of \<open>TrimXProcessor\<close>\<close>

text \<open>
  The processor of \<^verbatim>\<open>trimx_python_example.py\<close> drives an external executable through
  \<^verbatim>\<open>subprocess.run\<close>. A spawned command either cannot be started
  (\<^verbatim>\<open>FileNotFoundError\<close>) or exits with a return code and a standard output.
\<close>

datatype proc_outcome = Exited int string | NotFound

text \<open>The exceptions that the modelled methods can raise.\<close>

datatype error =
    CalledProcessError int
  | FileNotFoundError
  | JSONDecodeError
  | AttributeError
  | TypeError
  | KeyError
  | ValueError
  | OSError

text \<open>Values produced by \<^verbatim>\<open>json.loads\<close>; a dictionary is the list of its items.\<close>

datatype json =
    JNull
  | JBool bool
  | JInt int
  | JFloat real
  | JStr string
  | JList "json list"
  | JDict "(string \<times> json) list"

text \<open>
  What the methods use and the file does not define: the path of the executable
  (\<^verbatim>\<open>self.trimx_path\<close>), the operating system answering a spawned command and a
  directory creation, Python's \<^verbatim>\<open>str\<close> on a float, and \<^verbatim>\<open>json.loads\<close>
  (\<open>None\<close> when the text is not a JSON document). The world \<open>'w\<close> is whatever
  the operating system remembers between two calls.
\<close>

record 'w env =
  trimx_path :: string
  spawn :: "'w \<Rightarrow> string list \<Rightarrow> proc_outcome \<times> 'w"
  makedirs :: "'w \<Rightarrow> string \<Rightarrow> bool \<times> 'w"
  str_float :: "real \<Rightarrow> string"
  loads :: "string \<Rightarrow> json option"

text \<open>The state threaded through the methods: the world and the log of spawned commands.\<close>

record 'w pstate =
  world :: 'w
  calls :: "string list list"

subsection \<open>Python's \<^verbatim>\<open>str\<close> on an integer\<close>

definition digit_char :: "nat \<Rightarrow> char" where
  "digit_char d = ''0123456789'' ! d"

fun str_nat :: "nat \<Rightarrow> string" where
  "str_nat n = (if n < 10 then [digit_char n] else str_nat (n div 10) @ [digit_char (n mod 10)])"

declare str_nat.simps [simp del]

definition str_int :: "int \<Rightarrow> string" where
  "str_int i = (if i < 0 then CHR ''-'' # str_nat (nat (- i)) else str_nat (nat i))"

section \<open>\<open>run_command\<close>\<close>

text \<open>
  \<^verbatim>\<open>subprocess.run(cmd, check=True)\<close>: a non-zero return code raises
  \<^verbatim>\<open>CalledProcessError\<close>; both handlers print and re-raise.
\<close>

definition run_command :: "'w env \<Rightarrow> string list \<Rightarrow> 'w pstate \<Rightarrow> (error + string) \<times> 'w pstate" where
  "run_command E args st =
     (let cmd = trimx_path E # args;
          (r, w') = spawn E (world st) cmd;
          st' = st\<lparr>world := w', calls := calls st @ [cmd]\<rparr>
      in case r of
           Exited rc out \<Rightarrow> if rc = 0 then (Inr out, st') else (Inl (CalledProcessError rc), st')
         | NotFound \<Rightarrow> (Inl FileNotFoundError, st'))"

section \<open>\<open>extract_clip\<close> and \<open>verify_clip\<close>\<close>

text \<open>The argument list built by \<open>extract_clip\<close>; \<^verbatim>\<open>if quality_crf:\<close> tests truthiness.\<close>

definition extract_clip_args ::
  "'w env \<Rightarrow> string \<Rightarrow> real \<Rightarrow> real \<Rightarrow> string \<Rightarrow> string \<Rightarrow> int option \<Rightarrow> string list" where
  "extract_clip_args E video_path start_time end_time output_path mode quality_crf =
     [''clip'', video_path,
      ''--start'', str_float E start_time,
      ''--end'', str_float E end_time,
      ''--mode'', mode,
      ''--output'', output_path,
      ''--overwrite'', ''yes'']
     @ (case quality_crf of
          None \<Rightarrow> []
        | Some q \<Rightarrow> if q \<noteq> 0 then [''--quality-crf'', str_int q] else [])"

text \<open>Only \<^verbatim>\<open>CalledProcessError\<close> is caught; any other exception leaves the method.\<close>

definition catch_called :: "(error + string) \<times> 'w pstate \<Rightarrow> (error + bool) \<times> 'w pstate" where
  "catch_called r =
     (case r of
        (Inr out, st) \<Rightarrow> (Inr True, st)
      | (Inl (CalledProcessError rc), st) \<Rightarrow> (Inr False, st)
      | (Inl e, st) \<Rightarrow> (Inl e, st))"

definition extract_clip ::
  "'w env \<Rightarrow> string \<Rightarrow> real \<Rightarrow> real \<Rightarrow> string \<Rightarrow> string \<Rightarrow> int option \<Rightarrow> 'w pstate
     \<Rightarrow> (error + bool) \<times> 'w pstate" where
  "extract_clip E video_path start_time end_time output_path mode quality_crf st =
     catch_called
       (run_command E (extract_clip_args E video_path start_time end_time output_path mode quality_crf) st)"

definition verify_clip ::
  "'w env \<Rightarrow> string \<Rightarrow> real \<Rightarrow> real \<Rightarrow> real \<Rightarrow> 'w pstate \<Rightarrow> (error + bool) \<times> 'w pstate" where
  "verify_clip E clip_path expected_start expected_end tolerance st =
     catch_called
       (run_command E
          [''verify'', clip_path,
           ''--expected-start'', str_float E expected_start,
           ''--expected-end'', str_float E expected_end,
           ''--tolerance'', str_float E tolerance] st)"

section \<open>\<open>batch_extract_clips\<close>\<close>

record ClipSegment =
  start_time :: real
  end_time :: real
  name :: string
  description :: "string option"

text \<open>\<^verbatim>\<open>os.path.join\<close> of two components, as \<^verbatim>\<open>posixpath\<close> computes it.\<close>

definition path_join :: "string \<Rightarrow> string \<Rightarrow> string" where
  "path_join a b =
     (if b \<noteq> [] \<and> hd b = CHR ''/'' then b
      else if a = [] \<or> last a = CHR ''/'' then a @ b
      else a @ ''/'' @ b)"

text \<open>
  The \<^verbatim>\<open>for\<close> loop over the segments. \<open>results\<close> is the dictionary built so far, as
  the list of its items in insertion order: assigning to a key that is present replaces
  its value in place, assigning to a new key appends an item (\<open>AList.update\<close>).
  \<open>verify_clip\<close> is called with its default tolerance 0.5.
\<close>

fun batch_loop ::
  "'w env \<Rightarrow> string \<Rightarrow> string \<Rightarrow> string \<Rightarrow> ClipSegment list \<Rightarrow> (string \<times> bool) list \<Rightarrow> 'w pstate
     \<Rightarrow> (error + (string \<times> bool) list) \<times> 'w pstate" where
  "batch_loop E video_path output_dir mode [] results st = (Inr results, st)"
| "batch_loop E video_path output_dir mode (segment # rest) results st =
     (let output_path = path_join output_dir (name segment @ ''.mp4'') in
      case extract_clip E video_path (start_time segment) (end_time segment) output_path mode None st of
        (Inl e, st1) \<Rightarrow> (Inl e, st1)
      | (Inr success, st1) \<Rightarrow>
          if success then
            (case verify_clip E output_path (start_time segment) (end_time segment) (1 / 2) st1 of
               (Inl e, st2) \<Rightarrow> (Inl e, st2)
             | (Inr verify_success, st2) \<Rightarrow>
                 batch_loop E video_path output_dir mode rest
                   (AList.update (name segment) verify_success results) st2)
          else
            batch_loop E video_path output_dir mode rest
              (AList.update (name segment) False results) st1)"

definition batch_extract_clips ::
  "'w env \<Rightarrow> string \<Rightarrow> ClipSegment list \<Rightarrow> string \<Rightarrow> string \<Rightarrow> 'w pstate
     \<Rightarrow> (error + (string \<times> bool) list) \<times> 'w pstate" where
  "batch_extract_clips E video_path segments output_dir mode st =
     (let (created, w') = makedirs E (world st) output_dir;
          st' = st\<lparr>world := w'\<rparr>
      in if created then batch_loop E video_path output_dir mode segments [] st'
         else (Inl OSError, st'))"

section \<open>\<open>inspect_video\<close>\<close>

definition bind_err :: "error + 'a \<Rightarrow> ('a \<Rightarrow> error + 'b) \<Rightarrow> error + 'b" where
  "bind_err m f = (case m of Inl e \<Rightarrow> Inl e | Inr x \<Rightarrow> f x)"

text \<open>\<^verbatim>\<open>x.get(key, default)\<close>: only a dictionary has the method.\<close>

fun py_get :: "json \<Rightarrow> string \<Rightarrow> json \<Rightarrow> error + json" where
  "py_get (JDict kvs) key dflt = Inr (case map_of kvs key of Some v \<Rightarrow> v | None \<Rightarrow> dflt)"
| "py_get x key dflt = Inl AttributeError"

text \<open>
  The items a \<^verbatim>\<open>for\<close> loop (or \<^verbatim>\<open>min\<close>) draws from a value: the elements of a
  list, the keys of a dictionary, the characters of a string; a number, a boolean and
  \<^verbatim>\<open>None\<close> are not iterable.
\<close>

fun py_iter :: "json \<Rightarrow> error + json list" where
  "py_iter (JList xs) = Inr xs"
| "py_iter (JDict kvs) = Inr (map (\<lambda>kv. JStr (fst kv)) kvs)"
| "py_iter (JStr s) = Inr (map (\<lambda>c. JStr [c]) s)"
| "py_iter x = Inl TypeError"

fun classify_streams :: "json list \<Rightarrow> json list \<Rightarrow> json list \<Rightarrow> error + json list \<times> json list" where
  "classify_streams [] video_streams audio_streams = Inr (video_streams, audio_streams)"
| "classify_streams (stream # rest) video_streams audio_streams =
     bind_err (py_get stream ''type'' JNull) (\<lambda>t.
       if t = JStr ''video'' then classify_streams rest (video_streams @ [stream]) audio_streams
       else if t = JStr ''audio'' then classify_streams rest video_streams (audio_streams @ [stream])
       else classify_streams rest video_streams audio_streams)"

record VideoInfo =
  path :: string
  duration :: json
  width :: json
  height :: json
  frame_rate :: json
  bit_rate :: json
  file_size :: json
  video_streams :: "json list"
  audio_streams :: "json list"

text \<open>The part of \<open>inspect_video\<close> that follows \<^verbatim>\<open>json.loads\<close>.\<close>

definition build_video_info :: "string \<Rightarrow> json \<Rightarrow> error + VideoInfo" where
  "build_video_info video_path data =
     bind_err (py_get data ''streams'' (JList [])) (\<lambda>streams.
     bind_err (py_iter streams) (\<lambda>items.
     bind_err (classify_streams items [] []) (\<lambda>(vs, as).
       let primary_video = (case vs of [] \<Rightarrow> JDict [] | v # _ \<Rightarrow> v) in
       bind_err (py_get data ''duration'' (JFloat 0)) (\<lambda>d.
       bind_err (py_get primary_video ''width'' (JInt 0)) (\<lambda>w.
       bind_err (py_get primary_video ''height'' (JInt 0)) (\<lambda>h.
       bind_err (py_get primary_video ''frame_rate'' (JFloat 0)) (\<lambda>fr.
       bind_err (py_get data ''bit_rate'' (JInt 0)) (\<lambda>br.
       bind_err (py_get data ''file_size'' (JInt 0)) (\<lambda>fs.
         Inr \<lparr>path = video_path, duration = d, width = w, height = h, frame_rate = fr,
              bit_rate = br, file_size = fs, video_streams = vs, audio_streams = as\<rparr>)))))))))"

definition inspect_video :: "'w env \<Rightarrow> string \<Rightarrow> 'w pstate \<Rightarrow> (error + VideoInfo) \<times> 'w pstate" where
  "inspect_video E video_path st =
     (case run_command E [''inspect'', video_path, ''--format'', ''json'', ''--show-streams''] st of
        (Inl e, st') \<Rightarrow> (Inl e, st')
      | (Inr out, st') \<Rightarrow>
          (case loads E out of
             None \<Rightarrow> (Inl JSONDecodeError, st')
           | Some data \<Rightarrow> (build_video_info video_path data, st')))"

section \<open>\<open>analyze_keyframes\<close> and \<open>find_optimal_cut_points\<close>\<close>

definition analyze_keyframes :: "'w env \<Rightarrow> string \<Rightarrow> 'w pstate \<Rightarrow> (error + json) \<times> 'w pstate" where
  "analyze_keyframes E video_path st =
     (case run_command E [''inspect'', video_path, ''--show-keyframes'', ''--format'', ''json''] st of
        (Inl e, st') \<Rightarrow> (Inl e, st')
      | (Inr out, st') \<Rightarrow>
          (case loads E out of
             None \<Rightarrow> (Inl JSONDecodeError, st')
           | Some data \<Rightarrow> (py_get data ''keyframes'' (JList []), st')))"

text \<open>Truth value of a JSON value, as \<^verbatim>\<open>if not keyframes\<close> tests it.\<close>

fun truthy :: "json \<Rightarrow> bool" where
  "truthy JNull = False"
| "truthy (JBool b) = b"
| "truthy (JInt i) = (i \<noteq> 0)"
| "truthy (JFloat r) = (r \<noteq> 0)"
| "truthy (JStr s) = (s \<noteq> [])"
| "truthy (JList xs) = (xs \<noteq> [])"
| "truthy (JDict kvs) = (kvs \<noteq> [])"

text \<open>\<^verbatim>\<open>k["timestamp"]\<close>: a missing key raises, and only a dictionary takes a string index.\<close>

fun subscript_timestamp :: "json \<Rightarrow> error + json" where
  "subscript_timestamp (JDict kvs) =
     (case map_of kvs ''timestamp'' of None \<Rightarrow> Inl KeyError | Some v \<Rightarrow> Inr v)"
| "subscript_timestamp x = Inl TypeError"

text \<open>
  The number a value stands for in \<^verbatim>\<open>v - desired\<close>; a boolean counts as 0 or 1.
  Floats are taken as real numbers: the rounding of the subtraction is not modelled.
\<close>

fun py_number :: "json \<Rightarrow> error + real" where
  "py_number (JInt i) = Inr (of_int i)"
| "py_number (JFloat r) = Inr r"
| "py_number (JBool b) = Inr (if b then 1 else 0)"
| "py_number x = Inl TypeError"

definition keyframe_timestamp :: "json \<Rightarrow> error + real" where
  "keyframe_timestamp k = bind_err (subscript_timestamp k) py_number"

text \<open>The key function \<^verbatim>\<open>lambda k: abs(k["timestamp"] - desired)\<close>.\<close>

definition distance_key :: "real \<Rightarrow> json \<Rightarrow> error + real" where
  "distance_key desired k = bind_err (keyframe_timestamp k) (\<lambda>t. Inr \<bar>t - desired\<bar>)"

text \<open>
  Python's \<^verbatim>\<open>min(items, key=f)\<close>: the first item is the candidate, and a later item
  replaces it only when its key is strictly smaller.
\<close>

fun min_loop :: "('a \<Rightarrow> error + real) \<Rightarrow> 'a \<Rightarrow> real \<Rightarrow> 'a list \<Rightarrow> error + 'a" where
  "min_loop f best best_key [] = Inr best"
| "min_loop f best best_key (x # xs) =
     bind_err (f x) (\<lambda>k.
       if k < best_key then min_loop f x k xs else min_loop f best best_key xs)"

fun py_min :: "('a \<Rightarrow> error + real) \<Rightarrow> 'a list \<Rightarrow> error + 'a" where
  "py_min f [] = Inl ValueError"
| "py_min f (x # xs) = bind_err (f x) (\<lambda>k. min_loop f x k xs)"

text \<open>The body of \<open>find_optimal_cut_points\<close> once the keyframes are fetched.\<close>

definition optimal_cut_points :: "json \<Rightarrow> real \<Rightarrow> real \<Rightarrow> real \<Rightarrow> error + real \<times> real" where
  "optimal_cut_points keyframes desired_start desired_end tolerance =
     (if \<not> truthy keyframes then Inr (desired_start, desired_end)
      else
        bind_err (py_iter keyframes) (\<lambda>items.
        bind_err (py_min (distance_key desired_start) items) (\<lambda>start_keyframe.
        bind_err (py_min (distance_key desired_end) items) (\<lambda>end_keyframe.
        bind_err (keyframe_timestamp start_keyframe) (\<lambda>ts.
        bind_err (keyframe_timestamp end_keyframe) (\<lambda>te.
          let optimal_start = (if \<bar>ts - desired_start\<bar> \<le> tolerance then ts else desired_start);
              optimal_end = (if \<bar>te - desired_end\<bar> \<le> tolerance then te else desired_end)
          in Inr (optimal_start, optimal_end)))))))"

definition find_optimal_cut_points ::
  "'w env \<Rightarrow> string \<Rightarrow> real \<Rightarrow> real \<Rightarrow> real \<Rightarrow> 'w pstate \<Rightarrow> (error + real \<times> real) \<times> 'w pstate" where
  "find_optimal_cut_points E video_path desired_start desired_end tolerance st =
     (case analyze_keyframes E video_path st of
        (Inl e, st') \<Rightarrow> (Inl e, st')
      | (Inr keyframes, st') \<Rightarrow>
          (optimal_cut_points keyframes desired_start desired_end tolerance, st'))"

section \<open>Concrete environments\<close>

text \<open>
  Environments used to run the model on concrete inputs. \<open>demo_str\<close> prints the
  floats that occur below the way Python does: a whole-valued one with a trailing
  \<^verbatim>\<open>.0\<close> (\<^verbatim>\<open>str(5.0) == '5.0'\<close>), and one half as \<^verbatim>\<open>0.5\<close>.
\<close>

definition demo_str :: "real \<Rightarrow> string" where
  "demo_str r =
     (if r = of_int \<lfloor>r\<rfloor> then str_int \<lfloor>r\<rfloor> @ ''.0''
      else if r = 1 / 2 then ''0.5''
      else ''?'')"

text \<open>A tool that always exits with status 0, and counts the commands it has run.\<close>

definition ok_env :: "nat env" where
  "ok_env = \<lparr>trimx_path = ''trimx'',
             spawn = (\<lambda>w cmd. (Exited 0 [], Suc w)),
             makedirs = (\<lambda>w d. (True, w)),
             str_float = demo_str,
             loads = (\<lambda>s. None)\<rparr>"

text \<open>An executable that cannot be found.\<close>

definition missing_env :: "nat env" where
  "missing_env = ok_env\<lparr>spawn := (\<lambda>w cmd. (NotFound, w))\<rparr>"

definition st0 :: "nat pstate" where
  "st0 = \<lparr>world = 0, calls = []\<rparr>"

text \<open>A well-formed keyframe record, as the external tool lists it.\<close>

definition keyframe :: "real \<Rightarrow> json" where
  "keyframe t = JDict [(''timestamp'', JFloat t)]"

text \<open>A tool whose keyframe listing is empty.\<close>

definition no_keyframes_env :: "nat env" where
  "no_keyframes_env = ok_env\<lparr>loads := (\<lambda>s. Some (JDict [(''keyframes'', JList [])]))\<rparr>"


text \<open>A tool that reports a file with one audio stream and no video stream.\<close>

definition audio_only_env :: "nat env" where
  "audio_only_env =
     ok_env\<lparr>loads := (\<lambda>s. Some (JDict [(''duration'', JFloat 30),
                (''streams'', JList [JDict [(''type'', JStr ''audio''), (''codec'', JStr ''aac'')]])]))\<rparr>"

text \<open>A tool whose clip command fails for a window that starts at 10.0 seconds.\<close>

definition flaky_env :: "nat env" where
  "flaky_env =
     ok_env\<lparr>spawn := (\<lambda>w cmd.
       (if hd (tl cmd) = ''clip'' \<and> cmd ! 4 = ''10.0'' then Exited 1 [] else Exited 0 [],
        Suc w))\<rparr>"

text \<open>The commands that a batch on \<^verbatim>\<open>in.mp4\<close> into \<^verbatim>\<open>clips\<close> spawns.\<close>

definition demo_clip :: "string \<Rightarrow> string \<Rightarrow> string \<Rightarrow> string list" where
  "demo_clip a b n =
     [''trimx'', ''clip'', ''in.mp4'', ''--start'', a, ''--end'', b, ''--mode'', ''auto'',
      ''--output'', ''clips/'' @ n @ ''.mp4'', ''--overwrite'', ''yes'']"

definition demo_verify :: "string \<Rightarrow> string \<Rightarrow> string \<Rightarrow> string list" where
  "demo_verify a b n =
     [''trimx'', ''verify'', ''clips/'' @ n @ ''.mp4'', ''--expected-start'', a,
      ''--expected-end'', b, ''--tolerance'', ''0.5'']"

definition seg :: "real \<Rightarrow> real \<Rightarrow> string \<Rightarrow> ClipSegment" where
  "seg a b n = \<lparr>start_time = a, end_time = b, name = n, description = None\<rparr>"

text \<open>The timestamp of a keyframe that has one (0 otherwise); used to state results.\<close>

definition ts_of :: "json \<Rightarrow> real" where
  "ts_of k = (case keyframe_timestamp k of Inr t \<Rightarrow> t | Inl e \<Rightarrow> 0)"

section \<open>Properties of \<open>extract_clip\<close>\<close>

lemma calls_run_command:
  "calls (snd (run_command E args st)) = calls st @ [trimx_path E # args]"
  by (simp add: run_command_def Let_def split: prod.splits proc_outcome.splits)

lemma calls_catch_called: "calls (snd (catch_called r)) = calls (snd r)"
  by (simp add: catch_called_def split: prod.splits sum.splits error.splits)

lemma fst_run_command:
  "fst (run_command E args st) =
     (case fst (spawn E (world st) (trimx_path E # args)) of
        Exited rc out \<Rightarrow> if rc = 0 then Inr out else Inl (CalledProcessError rc)
      | NotFound \<Rightarrow> Inl FileNotFoundError)"
  by (simp add: run_command_def Let_def split: prod.splits proc_outcome.splits)

lemma fst_catch_called:
  "fst (catch_called r) =
     (case fst r of
        Inr out \<Rightarrow> Inr True
      | Inl (CalledProcessError rc) \<Rightarrow> Inr False
      | Inl e \<Rightarrow> Inl e)"
  by (simp add: catch_called_def split: prod.splits sum.splits error.splits)

lemma str_nat_23: "str_nat 23 = ''23''"
  by (simp add: str_nat.simps [of 23] str_nat.simps [of 2] digit_char_def)

lemma demo_str_5: "demo_str 5 = ''5.0''"
  by (simp add: demo_str_def str_int_def str_nat.simps [of 5] digit_char_def)

lemma demo_str_10: "demo_str 10 = ''10.0''"
  by (simp add: demo_str_def str_int_def str_nat.simps [of 10] str_nat.simps [of "Suc 0"] digit_char_def)

lemma demo_str_15: "demo_str 15 = ''15.0''"
  by (simp add: demo_str_def str_int_def str_nat.simps [of 15] str_nat.simps [of "Suc 0"] digit_char_def)

text \<open>
  C1, as stated: the quality parameter reaches the external command only in re-encode
  mode. Refuted: in mode \<^verbatim>\<open>copy\<close> with quality 23 the spawned command carries
  \<^verbatim>\<open>--quality-crf 23\<close>.
\<close>

theorem C1_quality_forwarded_in_copy_mode:
  "calls (snd (extract_clip ok_env ''in.mp4'' 5 15 ''out.mp4'' ''copy'' (Some 23) st0)) =
     [[''trimx'', ''clip'', ''in.mp4'', ''--start'', ''5.0'', ''--end'', ''15.0'',
       ''--mode'', ''copy'', ''--output'', ''out.mp4'', ''--overwrite'', ''yes'',
       ''--quality-crf'', ''23'']]"
  by (simp add: extract_clip_def calls_catch_called calls_run_command extract_clip_args_def
      ok_env_def st0_def demo_str_5 demo_str_15 str_int_def str_nat_23)

text \<open>
  C1, amended: for every mode, \<open>extract_clip\<close> spawns exactly one command, and that
  command ends with \<^verbatim>\<open>--quality-crf\<close> and the printed quality when the quality
  parameter is present and not zero, and carries no quality flag when it is absent or
  zero. The mode is passed through and plays no part in the decision.
\<close>

theorem C1_quality_forwarded_for_every_mode:
  "calls (snd (extract_clip E vp t0 t1 out mode quality_crf st)) =
     calls st @
     [[trimx_path E, ''clip'', vp,
       ''--start'', str_float E t0, ''--end'', str_float E t1,
       ''--mode'', mode, ''--output'', out, ''--overwrite'', ''yes'']
      @ (if quality_crf = None \<or> quality_crf = Some 0 then []
         else [''--quality-crf'', str_int (the quality_crf)])]"
  by (cases quality_crf)
     (simp_all add: extract_clip_def calls_catch_called calls_run_command extract_clip_args_def)

text \<open>
  C10: a quality parameter equal to 0 is treated exactly as an absent one, in every mode
  and so in re-encode mode too: the argument list has no quality flag and the whole call
  behaves as the call without the parameter.
\<close>

theorem C10_quality_zero_is_absent:
  "extract_clip_args E vp t0 t1 out ''reencode'' (Some 0) =
     [''clip'', vp, ''--start'', str_float E t0, ''--end'', str_float E t1,
      ''--mode'', ''reencode'', ''--output'', out, ''--overwrite'', ''yes'']
   \<and> extract_clip E vp t0 t1 out mode (Some 0) st =
     extract_clip E vp t0 t1 out mode None st"
  by (simp add: extract_clip_def extract_clip_args_def)

text \<open>
  C2, as stated: a request with \<open>startTime \<ge> endTime\<close> is rejected with an invalid-input
  error before any external process is invoked. Refuted: with start 10.0 and end 5.0 the
  clip command is spawned and the call returns \<open>True\<close>.
\<close>

theorem C2_reversed_window_runs_tool:
  "(5::real) \<le> 10 \<and>
   extract_clip ok_env ''in.mp4'' 10 5 ''out.mp4'' ''auto'' None st0 =
     (Inr True,
      \<lparr>world = 1,
       calls = [[''trimx'', ''clip'', ''in.mp4'', ''--start'', ''10.0'', ''--end'', ''5.0'',
                 ''--mode'', ''auto'', ''--output'', ''out.mp4'', ''--overwrite'', ''yes'']]\<rparr>)"
  by (simp add: extract_clip_def catch_called_def run_command_def extract_clip_args_def
      ok_env_def st0_def demo_str_5 demo_str_10)

text \<open>
  C2, amended: \<open>extract_clip\<close> does not look at the window. For every request, also
  one whose end is not after its start, it spawns the clip command exactly once, with the
  two times as given, and its result is the tool's: \<open>True\<close> on exit status 0, \<open>False\<close>
  on every other exit status, and the error of a missing executable when the command
  cannot be started. It never rejects a request itself.
\<close>

theorem C2_no_window_check:
  "calls (snd (extract_clip E vp t0 t1 out mode q st)) =
     calls st @ [trimx_path E # extract_clip_args E vp t0 t1 out mode q]
   \<and> take 6 (extract_clip_args E vp t0 t1 out mode q) =
       [''clip'', vp, ''--start'', str_float E t0, ''--end'', str_float E t1]
   \<and> fst (extract_clip E vp t0 t1 out mode q st) =
       (case fst (spawn E (world st) (trimx_path E # extract_clip_args E vp t0 t1 out mode q)) of
          Exited rc stdout \<Rightarrow> Inr (rc = 0)
        | NotFound \<Rightarrow> Inl FileNotFoundError)"
  by (simp add: extract_clip_def calls_catch_called calls_run_command fst_catch_called
      fst_run_command extract_clip_args_def split: proc_outcome.splits)

theorem C2_no_window_check_witness:
  "(5::real) \<le> 10
   \<and> calls (snd (extract_clip ok_env ''in.mp4'' 10 5 ''out.mp4'' ''auto'' None st0)) =
       [[''trimx'', ''clip'', ''in.mp4'', ''--start'', ''10.0'', ''--end'', ''5.0'',
         ''--mode'', ''auto'', ''--output'', ''out.mp4'', ''--overwrite'', ''yes'']]
   \<and> fst (extract_clip ok_env ''in.mp4'' 10 5 ''out.mp4'' ''auto'' None st0) = Inr True"
  using C2_no_window_check [of ok_env "''in.mp4''" 10 5 "''out.mp4''" "''auto''" None st0]
  by (simp add: extract_clip_args_def ok_env_def st0_def demo_str_5 demo_str_10)

text \<open>
  C7, as stated: every process-level error of the extraction is turned into \<open>False\<close>.
  Refuted: when the executable cannot be started, \<^verbatim>\<open>FileNotFoundError\<close> leaves
  \<open>extract_clip\<close>.
\<close>

theorem C7_missing_tool_raises:
  "extract_clip missing_env ''in.mp4'' 5 15 ''out.mp4'' ''auto'' None st0 =
     (Inl FileNotFoundError,
      \<lparr>world = 0,
       calls = [[''trimx'', ''clip'', ''in.mp4'', ''--start'', ''5.0'', ''--end'', ''15.0'',
                 ''--mode'', ''auto'', ''--output'', ''out.mp4'', ''--overwrite'', ''yes'']]\<rparr>)"
  by (simp add: extract_clip_def catch_called_def run_command_def extract_clip_args_def
      missing_env_def ok_env_def st0_def demo_str_5 demo_str_15)

text \<open>
  C7, amended: \<open>extract_clip\<close> returns \<open>True\<close> on exit status 0 and \<open>False\<close>, not an
  exception, on every non-zero exit status; the error of an executable that cannot be
  started is not caught and reaches the caller.
\<close>

theorem C7_exit_status_to_bool:
  "fst (extract_clip E vp t0 t1 out mode q st) =
     (case fst (spawn E (world st) (trimx_path E # extract_clip_args E vp t0 t1 out mode q)) of
        Exited rc stdout \<Rightarrow> Inr (rc = 0)
      | NotFound \<Rightarrow> Inl FileNotFoundError)"
  by (simp add: extract_clip_def fst_catch_called fst_run_command split: proc_outcome.splits)

section \<open>Properties of \<open>find_optimal_cut_points\<close>\<close>

text \<open>
  C4: when the keyframe listing is empty, \<open>find_optimal_cut_points\<close> returns the desired
  start and end unchanged, for every desired window and tolerance.
\<close>

theorem C4_no_keyframes_unchanged:
  assumes "analyze_keyframes E vp st = (Inr (JList []), st')"
  shows "find_optimal_cut_points E vp ds de tol st = (Inr (ds, de), st')
         \<and> optimal_cut_points (JList []) ds de tol = Inr (ds, de)"
  using assms by (simp add: find_optimal_cut_points_def optimal_cut_points_def)

theorem C4_no_keyframes_unchanged_witness:
  "analyze_keyframes no_keyframes_env ''in.mp4'' st0 =
     (Inr (JList []),
      \<lparr>world = 1, calls = [[''trimx'', ''inspect'', ''in.mp4'', ''--show-keyframes'', ''--format'', ''json'']]\<rparr>)
   \<and> fst (find_optimal_cut_points no_keyframes_env ''in.mp4'' 8.5 18.2 2 st0) = Inr (8.5, 18.2)"
proof -
  have a: "analyze_keyframes no_keyframes_env ''in.mp4'' st0 =
     (Inr (JList []),
      \<lparr>world = 1, calls = [[''trimx'', ''inspect'', ''in.mp4'', ''--show-keyframes'', ''--format'', ''json'']]\<rparr>)"
    by (simp add: analyze_keyframes_def run_command_def no_keyframes_env_def ok_env_def st0_def)
  from C4_no_keyframes_unchanged [OF a, of "8.5" "18.2" 2] a show ?thesis by simp
qed

lemma min_loop_first_min:
  assumes "\<forall>x\<in>set xs. f x = Inr (g x)"
    and "\<forall>y\<in>set pre. g b < g y"
    and "\<forall>y\<in>set mid. g b \<le> g y"
  shows "\<exists>pre' k post'. pre @ b # mid @ xs = pre' @ k # post'
           \<and> min_loop f b (g b) xs = Inr k
           \<and> (\<forall>y\<in>set pre'. g k < g y) \<and> (\<forall>y\<in>set post'. g k \<le> g y)"
  using assms
proof (induction xs arbitrary: pre b mid)
  case Nil
  then show ?case by auto
next
  case (Cons x xs)
  have fx: "f x = Inr (g x)" and rest: "\<forall>y\<in>set xs. f y = Inr (g y)"
    using Cons.prems(1) by simp_all
  show ?case
  proof (cases "g x < g b")
    case True
    have p: "\<forall>y\<in>set (pre @ b # mid). g x < g y"
      using True Cons.prems(2,3) by fastforce
    have m: "\<forall>y\<in>set ([]::'a list). g x \<le> g y" by simp
    from Cons.IH [OF rest p m]
    show ?thesis using True fx by (simp add: bind_err_def)
  next
    case False
    have m: "\<forall>y\<in>set (mid @ [x]). g b \<le> g y"
      using False Cons.prems(3) by auto
    from Cons.IH [OF rest Cons.prems(2) m]
    show ?thesis using False fx by (simp add: bind_err_def)
  qed
qed

lemma py_min_first_min:
  assumes "xs \<noteq> []" and "\<forall>x\<in>set xs. f x = Inr (g x)"
  shows "\<exists>pre k post. xs = pre @ k # post \<and> py_min f xs = Inr k
           \<and> (\<forall>y\<in>set pre. g k < g y) \<and> (\<forall>y\<in>set post. g k \<le> g y)"
proof -
  from assms(1) obtain x rest where xs: "xs = x # rest" by (cases xs) auto
  have r: "\<forall>y\<in>set rest. f y = Inr (g y)" and fx: "f x = Inr (g x)"
    using assms(2) xs by simp_all
  have e1: "\<forall>y\<in>set ([]::'a list). g x < g y" and e2: "\<forall>y\<in>set ([]::'a list). g x \<le> g y"
    by simp_all
  from min_loop_first_min [OF r e1 e2] show ?thesis
    using xs fx by (simp add: bind_err_def)
qed

lemma min_loop_error:
  assumes "\<forall>y\<in>set pre. \<exists>k. f y = Inr k" and "f x = Inl e"
  shows "min_loop f b bk (pre @ x # post) = Inl e"
  using assms by (induction pre arbitrary: b bk) (auto simp: bind_err_def)

lemma py_min_error:
  assumes "\<forall>y\<in>set pre. \<exists>k. f y = Inr k" and "f x = Inl e"
  shows "py_min f (pre @ x # post) = Inl e"
proof (cases pre)
  case Nil
  then show ?thesis using assms(2) by (simp add: bind_err_def)
next
  case (Cons p ps)
  then obtain k where "f p = Inr k" using assms(1) by auto
  moreover have "\<forall>y\<in>set ps. \<exists>k. f y = Inr k" using assms(1) Cons by simp
  then have "min_loop f p k (ps @ x # post) = Inl e"
    using assms(2) by (rule min_loop_error)
  ultimately show ?thesis using Cons by (simp add: bind_err_def)
qed


lemma distance_key_ok:
  "keyframe_timestamp k = Inr t \<Longrightarrow> distance_key d k = Inr \<bar>t - d\<bar>"
  by (simp add: distance_key_def bind_err_def)

lemma distance_key_err:
  "keyframe_timestamp k = Inl e \<Longrightarrow> distance_key d k = Inl e"
  by (simp add: distance_key_def bind_err_def)


lemma first_failure:
  "(\<forall>x\<in>set xs. \<exists>t. f x = Inr t)
   \<or> (\<exists>pre x post e. xs = pre @ x # post \<and> (\<forall>y\<in>set pre. \<exists>t. f y = Inr t) \<and> f x = Inl e)"
proof (cases "\<exists>x\<in>set xs. \<exists>e. f x = Inl e")
  case True
  from split_list_first_prop [OF True]
  obtain pre x post where xs: "xs = pre @ x # post" and bad: "\<exists>e. f x = Inl e"
    and good: "\<forall>y\<in>set pre. \<not> (\<exists>e. f y = Inl e)" by blast
  have "\<forall>y\<in>set pre. \<exists>t. f y = Inr t"
  proof
    fix y assume "y \<in> set pre"
    with good have "\<not> (\<exists>e. f y = Inl e)" by blast
    then show "\<exists>t. f y = Inr t" by (cases "f y") auto
  qed
  with xs bad show ?thesis by blast
next
  case False
  have "\<forall>x\<in>set xs. \<exists>t. f x = Inr t"
  proof
    fix x assume "x \<in> set xs"
    with False have "\<not> (\<exists>e. f x = Inl e)" by blast
    then show "\<exists>t. f x = Inr t" by (cases "f x") auto
  qed
  then show ?thesis by blast
qed

text \<open>With well-formed keyframes each boundary is a function of its own desired time.\<close>

lemma optimal_cut_points_ok:
  assumes ne: "items \<noteq> []" and ok: "\<forall>k\<in>set items. keyframe_timestamp k = Inr (ts_of k)"
    and it: "py_iter kfs = Inr items" and tr: "truthy kfs"
  shows "\<exists>pre k post pre' k' post'.
           items = pre @ k # post
           \<and> (\<forall>y\<in>set pre. \<bar>ts_of k - ds\<bar> < \<bar>ts_of y - ds\<bar>)
           \<and> (\<forall>y\<in>set post. \<bar>ts_of k - ds\<bar> \<le> \<bar>ts_of y - ds\<bar>)
           \<and> items = pre' @ k' # post'
           \<and> (\<forall>y\<in>set pre'. \<bar>ts_of k' - de\<bar> < \<bar>ts_of y - de\<bar>)
           \<and> (\<forall>y\<in>set post'. \<bar>ts_of k' - de\<bar> \<le> \<bar>ts_of y - de\<bar>)
           \<and> py_min (distance_key ds) items = Inr k
           \<and> py_min (distance_key de) items = Inr k'
           \<and> optimal_cut_points kfs ds de tol =
               Inr (if \<bar>ts_of k - ds\<bar> \<le> tol then ts_of k else ds,
                    if \<bar>ts_of k' - de\<bar> \<le> tol then ts_of k' else de)"
proof -
  have ks: "\<forall>k\<in>set items. distance_key ds k = Inr \<bar>ts_of k - ds\<bar>"
    and ke: "\<forall>k\<in>set items. distance_key de k = Inr \<bar>ts_of k - de\<bar>"
    using ok by (simp_all add: distance_key_ok)
  from py_min_first_min [OF ne ks]
  obtain pre k post where s: "items = pre @ k # post" "py_min (distance_key ds) items = Inr k"
    "\<forall>y\<in>set pre. \<bar>ts_of k - ds\<bar> < \<bar>ts_of y - ds\<bar>" "\<forall>y\<in>set post. \<bar>ts_of k - ds\<bar> \<le> \<bar>ts_of y - ds\<bar>"
    by blast
  from py_min_first_min [OF ne ke]
  obtain pre' k' post' where e: "items = pre' @ k' # post'" "py_min (distance_key de) items = Inr k'"
    "\<forall>y\<in>set pre'. \<bar>ts_of k' - de\<bar> < \<bar>ts_of y - de\<bar>" "\<forall>y\<in>set post'. \<bar>ts_of k' - de\<bar> \<le> \<bar>ts_of y - de\<bar>"
    by blast
  have "k \<in> set items" using s(1) by simp
  then have tk: "keyframe_timestamp k = Inr (ts_of k)" using ok by blast
  have "k' \<in> set items" using e(1) by simp
  then have tk': "keyframe_timestamp k' = Inr (ts_of k')" using ok by blast
  have "optimal_cut_points kfs ds de tol =
          Inr (if \<bar>ts_of k - ds\<bar> \<le> tol then ts_of k else ds,
               if \<bar>ts_of k' - de\<bar> \<le> tol then ts_of k' else de)"
    using tr it s(2) e(2) tk tk' by (simp add: optimal_cut_points_def bind_err_def)
  with s e show ?thesis by blast
qed


lemma optimal_cut_points_shape:
  "\<exists>B err. \<forall>ds de. optimal_cut_points kfs ds de tol =
      (case err of Some e \<Rightarrow> Inl e | None \<Rightarrow> Inr (B ds, B de))"
proof (cases "truthy kfs")
  case False
  then show ?thesis
    by (intro exI [where x = "\<lambda>d. d"] exI [where x = None]) (simp add: optimal_cut_points_def)
next
  case tr: True
  show ?thesis
  proof (cases "py_iter kfs")
    case (Inl e)
    then show ?thesis using tr
      by (intro exI [where x = "\<lambda>d. d"] exI [where x = "Some e"])
         (simp add: optimal_cut_points_def bind_err_def)
  next
    case (Inr items)
    show ?thesis
    proof (cases "items = []")
      case True
      then show ?thesis using tr Inr
        by (intro exI [where x = "\<lambda>d. d"] exI [where x = "Some ValueError"])
           (simp add: optimal_cut_points_def bind_err_def)
    next
      case ne: False
      from first_failure [of items keyframe_timestamp]
      show ?thesis
      proof
        assume "\<forall>x\<in>set items. \<exists>t. keyframe_timestamp x = Inr t"
        then have ok: "\<forall>k\<in>set items. keyframe_timestamp k = Inr (ts_of k)"
          by (auto simp: ts_of_def)
        define B where "B d =
          (case py_min (distance_key d) items of
             Inr k \<Rightarrow> if \<bar>ts_of k - d\<bar> \<le> tol then ts_of k else d
           | Inl e \<Rightarrow> d)" for d
        have "optimal_cut_points kfs ds de tol = Inr (B ds, B de)" for ds de
          using optimal_cut_points_ok [OF ne ok Inr tr, of ds de tol]
          by (auto simp: B_def)
        then show ?thesis
          by (intro exI [where x = B] exI [where x = None]) simp
      next
        assume "\<exists>pre x post e. items = pre @ x # post
                  \<and> (\<forall>y\<in>set pre. \<exists>t. keyframe_timestamp y = Inr t) \<and> keyframe_timestamp x = Inl e"
        then obtain pre x post e where items: "items = pre @ x # post"
          and good: "\<forall>y\<in>set pre. \<exists>t. keyframe_timestamp y = Inr t"
          and bad: "keyframe_timestamp x = Inl e" by blast
        have "py_min (distance_key d) items = Inl e" for d
        proof -
          have g: "\<forall>y\<in>set pre. \<exists>k. distance_key d y = Inr k"
            using good by (auto simp: distance_key_ok)
          have b: "distance_key d x = Inl e" using bad by (rule distance_key_err)
          show ?thesis unfolding items using g b by (rule py_min_error)
        qed
        then show ?thesis using tr Inr
          by (intro exI [where x = "\<lambda>d. d"] exI [where x = "Some e"])
             (simp add: optimal_cut_points_def bind_err_def)
      qed
    qed
  qed
qed

lemma keyframe_timestamp_keyframe: "keyframe_timestamp (keyframe t) = Inr t"
  by (simp add: keyframe_def keyframe_timestamp_def bind_err_def)

lemma distance_key_keyframe: "distance_key d (keyframe t) = Inr \<bar>t - d\<bar>"
  by (simp add: distance_key_ok keyframe_timestamp_keyframe)





text \<open>
  C5: each boundary depends on its own desired time only (changing the desired end leaves
  the start as it is, and conversely), and nothing checks the pair: with one keyframe at
  10.0, the window 9.0 to 11.0 and tolerance 2.0, the result is 10.0 to 10.0, whose end
  is not after its start.
\<close>

theorem C5_boundaries_independent_and_can_cross:
  "map_sum id fst (optimal_cut_points kfs ds de tol) = map_sum id fst (optimal_cut_points kfs ds de' tol)
   \<and> map_sum id snd (optimal_cut_points kfs ds de tol) = map_sum id snd (optimal_cut_points kfs ds' de tol)
   \<and> (9::real) < 11
   \<and> optimal_cut_points (JList [keyframe 10]) 9 11 2 = Inr (10, 10)"
proof -
  from optimal_cut_points_shape [of kfs tol]
  obtain B err where sh: "\<And>ds de. optimal_cut_points kfs ds de tol =
      (case err of Some e \<Rightarrow> Inl e | None \<Rightarrow> Inr (B ds, B de))" by blast
  have a: "map_sum id fst (optimal_cut_points kfs ds de tol) = map_sum id fst (optimal_cut_points kfs ds de' tol)"
    by (cases err) (simp_all add: sh)
  have b: "map_sum id snd (optimal_cut_points kfs ds de tol) = map_sum id snd (optimal_cut_points kfs ds' de tol)"
    by (cases err) (simp_all add: sh)
  have c: "optimal_cut_points (JList [keyframe 10]) 9 11 2 = Inr (10, 10)"
    by (simp add: optimal_cut_points_def bind_err_def distance_key_keyframe keyframe_timestamp_keyframe)
  from a b c show ?thesis by simp
qed

section \<open>Properties of \<open>inspect_video\<close>\<close>

lemma classify_no_video:
  assumes "\<forall>s\<in>set ss. \<exists>fields. s = JDict fields \<and> map_of fields ''type'' \<noteq> Some (JStr ''video'')"
  shows "\<exists>as'. classify_streams ss vs as = Inr (vs, as')"
  using assms
proof (induction ss arbitrary: as)
  case Nil
  then show ?case by simp
next
  case (Cons s ss)
  then obtain fields where s: "s = JDict fields" and nv: "map_of fields ''type'' \<noteq> Some (JStr ''video'')"
    by auto
  from Cons have rest: "\<And>as. \<exists>as'. classify_streams ss vs as = Inr (vs, as')" by simp
  show ?case using s nv rest
    by (cases "map_of fields ''type''") (auto simp: bind_err_def)
qed

text \<open>
  C9: when the tool's report lists no video stream, \<open>inspect_video\<close> succeeds and the
  width, height and frame rate of its result are 0, 0 and 0.0.
\<close>

theorem C9_no_video_stream_defaults:
  assumes "run_command E [''inspect'', vp, ''--format'', ''json'', ''--show-streams''] st = (Inr out, st')"
    and "loads E out = Some (JDict kvs)"
    and "py_get (JDict kvs) ''streams'' (JList []) = Inr (JList ss)"
    and "\<forall>s\<in>set ss. \<exists>fields. s = JDict fields \<and> map_of fields ''type'' \<noteq> Some (JStr ''video'')"
  shows "\<exists>info. inspect_video E vp st = (Inr info, st')
           \<and> width info = JInt 0 \<and> height info = JInt 0 \<and> frame_rate info = JFloat 0
           \<and> video_streams info = []"
proof -
  from classify_no_video [OF assms(4), of "[]" "[]"]
  obtain as' where c: "classify_streams ss [] [] = Inr ([], as')" by blast
  have "build_video_info vp (JDict kvs) =
          Inr \<lparr>path = vp,
               duration = (case map_of kvs ''duration'' of Some v \<Rightarrow> v | None \<Rightarrow> JFloat 0),
               width = JInt 0, height = JInt 0, frame_rate = JFloat 0,
               bit_rate = (case map_of kvs ''bit_rate'' of Some v \<Rightarrow> v | None \<Rightarrow> JInt 0),
               file_size = (case map_of kvs ''file_size'' of Some v \<Rightarrow> v | None \<Rightarrow> JInt 0),
               video_streams = [], audio_streams = as'\<rparr>"
    using assms(3) c by (simp add: build_video_info_def bind_err_def)
  then show ?thesis using assms(1,2) by (simp add: inspect_video_def)
qed

theorem C9_no_video_stream_defaults_witness:
  "run_command audio_only_env [''inspect'', ''in.mp4'', ''--format'', ''json'', ''--show-streams''] st0 =
     (Inr [], \<lparr>world = 1, calls = [[''trimx'', ''inspect'', ''in.mp4'', ''--format'', ''json'', ''--show-streams'']]\<rparr>)
   \<and> loads audio_only_env [] = Some (JDict [(''duration'', JFloat 30),
         (''streams'', JList [JDict [(''type'', JStr ''audio''), (''codec'', JStr ''aac'')]])])
   \<and> map_of [(''type'', JStr ''audio''), (''codec'', JStr ''aac'')] ''type'' = Some (JStr ''audio'')
   \<and> (\<exists>info. inspect_video audio_only_env ''in.mp4'' st0 =
         (Inr info, \<lparr>world = 1, calls = [[''trimx'', ''inspect'', ''in.mp4'', ''--format'', ''json'', ''--show-streams'']]\<rparr>)
         \<and> width info = JInt 0 \<and> height info = JInt 0 \<and> frame_rate info = JFloat 0
         \<and> video_streams info = [])"
proof -
  have h1: "run_command audio_only_env [''inspect'', ''in.mp4'', ''--format'', ''json'', ''--show-streams''] st0 =
     (Inr [], \<lparr>world = 1, calls = [[''trimx'', ''inspect'', ''in.mp4'', ''--format'', ''json'', ''--show-streams'']]\<rparr>)"
    by (simp add: run_command_def audio_only_env_def ok_env_def st0_def)
  have h2: "loads audio_only_env [] = Some (JDict [(''duration'', JFloat 30),
                (''streams'', JList [JDict [(''type'', JStr ''audio''), (''codec'', JStr ''aac'')]])])"
    by (simp add: audio_only_env_def ok_env_def)
  have h3: "py_get (JDict [(''duration'', JFloat 30),
                (''streams'', JList [JDict [(''type'', JStr ''audio''), (''codec'', JStr ''aac'')]])])
              ''streams'' (JList []) = Inr (JList [JDict [(''type'', JStr ''audio''), (''codec'', JStr ''aac'')]])"
    by simp
  have h4: "\<forall>s\<in>set [JDict [(''type'', JStr ''audio''), (''codec'', JStr ''aac'')]].
         \<exists>fields. s = JDict fields \<and> map_of fields ''type'' \<noteq> Some (JStr ''video'')"
    by simp
  have h5: "map_of [(''type'', JStr ''audio''), (''codec'', JStr ''aac'')] ''type'' = Some (JStr ''audio'')"
    by simp
  show ?thesis
    by (intro conjI h1 h2 h5 C9_no_video_stream_defaults [OF h1 h2 h3 h4])
qed

section \<open>Properties of \<open>batch_extract_clips\<close>\<close>

lemma batch_loop_append:
  "batch_loop E vp od mode (xs @ ys) results st =
     (case batch_loop E vp od mode xs results st of
        (Inl e, st1) \<Rightarrow> (Inl e, st1)
      | (Inr r1, st1) \<Rightarrow> batch_loop E vp od mode ys r1 st1)"
  by (induction xs arbitrary: results st) (auto simp: Let_def split: prod.splits sum.splits)

lemma update_fresh: "k \<notin> fst ` set al \<Longrightarrow> AList.update k v al = al @ [(k, v)]"
  by (induction al) auto

lemma batch_loop_keys_distinct:
  assumes "batch_loop E vp od mode segs results st = (Inr res, st')"
    and "distinct (map name segs)"
    and "name ` set segs \<inter> fst ` set results = {}"
  shows "map fst res = map fst results @ map name segs"
  using assms
proof (induction segs arbitrary: results st)
  case Nil
  then show ?case by simp
next
  case (Cons s segs)
  have fresh: "name s \<notin> fst ` set results" using Cons.prems(3) by auto
  have d: "distinct (map name segs)" and nin: "name s \<notin> name ` set segs"
    using Cons.prems(2) by auto
  have step: "\<exists>ok st1. batch_loop E vp od mode segs (AList.update (name s) ok results) st1 = (Inr res, st')"
    using Cons.prems(1) by (auto simp: Let_def split: prod.splits sum.splits if_splits)
  then obtain ok st1 where
    r: "batch_loop E vp od mode segs (AList.update (name s) ok results) st1 = (Inr res, st')"
    by blast
  have u: "AList.update (name s) ok results = results @ [(name s, ok)]"
    using fresh by (rule update_fresh)
  have disj: "name ` set segs \<inter> fst ` set (AList.update (name s) ok results) = {}"
    using Cons.prems(3) nin by (auto simp: u)
  from Cons.IH [OF r d disj] show ?case by (simp add: u)
qed

lemma batch_loop_key_set:
  assumes "batch_loop E vp od mode segs results st = (Inr res, st')"
  shows "fst ` set res = fst ` set results \<union> name ` set segs"
  using assms
proof (induction segs arbitrary: results st)
  case Nil
  then show ?case by simp
next
  case (Cons s segs)
  have "\<exists>ok st1. batch_loop E vp od mode segs (AList.update (name s) ok results) st1 = (Inr res, st')"
    using Cons.prems(1) by (auto simp: Let_def split: prod.splits sum.splits if_splits)
  then obtain ok st1 where
    r: "batch_loop E vp od mode segs (AList.update (name s) ok results) st1 = (Inr res, st')"
    by blast
  from Cons.IH [OF r] show ?case by (auto simp: dom_update)
qed

lemma batch_loop_untouched:
  assumes "batch_loop E vp od mode segs results st = (Inr res, st')"
    and "k \<notin> name ` set segs"
  shows "map_of res k = map_of results k"
  using assms
proof (induction segs arbitrary: results st)
  case Nil
  then show ?case by simp
next
  case (Cons s segs)
  have "\<exists>ok st1. batch_loop E vp od mode segs (AList.update (name s) ok results) st1 = (Inr res, st')"
    using Cons.prems(1) by (auto simp: Let_def split: prod.splits sum.splits if_splits)
  then obtain ok st1 where
    r: "batch_loop E vp od mode segs (AList.update (name s) ok results) st1 = (Inr res, st')"
    by blast
  have "k \<notin> name ` set segs" and "k \<noteq> name s" using Cons.prems(2) by auto
  with Cons.IH [OF r] show ?case by (simp add: update_conv')
qed

lemma batch_loop_single:
  assumes "batch_loop E vp od mode [s] [] st1 = (Inr [(name s, ok)], st2)"
  shows "batch_loop E vp od mode [s] r1 st1 = (Inr (AList.update (name s) ok r1), st2)"
  using assms by (auto simp: Let_def split: prod.splits sum.splits if_splits)


lemma batch_extract_clips_created:
  assumes "batch_extract_clips E vp segs od mode st = (Inr res, st')"
  shows "\<exists>w. makedirs E (world st) od = (True, w)
           \<and> batch_loop E vp od mode segs [] (st\<lparr>world := w\<rparr>) = (Inr res, st')"
  using assms by (auto simp: batch_extract_clips_def Let_def split: prod.splits if_splits)

lemma batch_extract_clips_loop:
  assumes "makedirs E (world st) od = (True, w)"
  shows "batch_extract_clips E vp segs od mode st = batch_loop E vp od mode segs [] (st\<lparr>world := w\<rparr>)"
  using assms by (simp add: batch_extract_clips_def)

lemma demo_str_half: "demo_str (1 / 2) = ''0.5''"
  by (simp add: demo_str_def)

lemmas demo_run =
  batch_extract_clips_def extract_clip_def verify_clip_def catch_called_def run_command_def
  extract_clip_args_def flaky_env_def ok_env_def st0_def seg_def path_join_def
  demo_clip_def demo_verify_def demo_str_5 demo_str_10 demo_str_15 demo_str_half Let_def

lemma flaky_batch_a:
  "batch_extract_clips flaky_env ''in.mp4'' [seg 5 10 ''a''] ''clips'' ''auto'' st0 =
     (Inr [(''a'', True)],
      \<lparr>world = 2, calls = [demo_clip ''5.0'' ''10.0'' ''a'', demo_verify ''5.0'' ''10.0'' ''a'']\<rparr>)"
  by (simp add: demo_run)

lemma flaky_extract_b:
  "extract_clip flaky_env ''in.mp4'' (start_time (seg 10 15 ''b'')) (end_time (seg 10 15 ''b''))
     (path_join ''clips'' (name (seg 10 15 ''b'') @ ''.mp4'')) ''auto'' None
     \<lparr>world = 2, calls = [demo_clip ''5.0'' ''10.0'' ''a'', demo_verify ''5.0'' ''10.0'' ''a'']\<rparr> =
     (Inr False,
      \<lparr>world = 3,
       calls = [demo_clip ''5.0'' ''10.0'' ''a'', demo_verify ''5.0'' ''10.0'' ''a'',
                demo_clip ''10.0'' ''15.0'' ''b'']\<rparr>)"
  by (simp add: demo_run)

lemma flaky_loop_c:
  "batch_loop flaky_env ''in.mp4'' ''clips'' ''auto'' [seg 5 15 ''c'']
     (AList.update ''b'' False [(''a'', True)])
     \<lparr>world = 3,
       calls = [demo_clip ''5.0'' ''10.0'' ''a'', demo_verify ''5.0'' ''10.0'' ''a'',
                demo_clip ''10.0'' ''15.0'' ''b'']\<rparr> =
     (Inr [(''a'', True), (''b'', False), (''c'', True)],
      \<lparr>world = 5,
       calls = [demo_clip ''5.0'' ''10.0'' ''a'', demo_verify ''5.0'' ''10.0'' ''a'',
                demo_clip ''10.0'' ''15.0'' ''b'',
                demo_clip ''5.0'' ''15.0'' ''c'', demo_verify ''5.0'' ''15.0'' ''c'']\<rparr>)"
  by (simp add: demo_run)

lemma flaky_batch_abc:
  "batch_extract_clips flaky_env ''in.mp4'' [seg 5 10 ''a'', seg 10 15 ''b'', seg 5 15 ''c'']
       ''clips'' ''auto'' st0 =
     (Inr [(''a'', True), (''b'', False), (''c'', True)],
      \<lparr>world = 5,
       calls = [demo_clip ''5.0'' ''10.0'' ''a'', demo_verify ''5.0'' ''10.0'' ''a'',
                demo_clip ''10.0'' ''15.0'' ''b'',
                demo_clip ''5.0'' ''15.0'' ''c'', demo_verify ''5.0'' ''15.0'' ''c'']\<rparr>)"
  by (simp add: demo_run)

lemma flaky_batch_aa:
  "batch_extract_clips flaky_env ''in.mp4'' [seg 5 10 ''a'', seg 10 15 ''a''] ''clips'' ''auto'' st0 =
     (Inr [(''a'', False)],
      \<lparr>world = 3,
       calls = [demo_clip ''5.0'' ''10.0'' ''a'', demo_verify ''5.0'' ''10.0'' ''a'',
                demo_clip ''10.0'' ''15.0'' ''a'']\<rparr>)"
  by (simp add: demo_run)

lemma flaky_loop_a2:
  "batch_loop flaky_env ''in.mp4'' ''clips'' ''auto'' [seg 10 15 ''a''] []
     \<lparr>world = 2, calls = [demo_clip ''5.0'' ''10.0'' ''a'', demo_verify ''5.0'' ''10.0'' ''a'']\<rparr> =
     (Inr [(name (seg 10 15 ''a''), False)],
      \<lparr>world = 3,
       calls = [demo_clip ''5.0'' ''10.0'' ''a'', demo_verify ''5.0'' ''10.0'' ''a'',
                demo_clip ''10.0'' ''15.0'' ''a'']\<rparr>)"
  by (simp add: demo_run)

text \<open>
  C6: let the batch on the segments before \<open>s\<close> complete with results \<open>r1\<close>, and let
  the extraction of \<open>s\<close> return \<open>False\<close>. Then the batch records \<open>False\<close> under the
  name of \<open>s\<close> and goes on with the loop over the segments after \<open>s\<close>, in their order;
  the only command spawned for \<open>s\<close> is its clip command, so no verification runs for it;
  and the final mapping holds \<open>False\<close> for \<open>s\<close> unless a later segment has its name.
\<close>

theorem C6_failed_extraction_is_isolated:
  assumes "batch_extract_clips E vp pre od mode st = (Inr r1, st1)"
    and "extract_clip E vp (start_time s) (end_time s) (path_join od (name s @ ''.mp4'')) mode None st1
           = (Inr False, st2)"
  shows "batch_extract_clips E vp (pre @ s # post) od mode st =
           batch_loop E vp od mode post (AList.update (name s) False r1) st2
         \<and> calls st2 = calls st1 @
             [trimx_path E # extract_clip_args E vp (start_time s) (end_time s)
                (path_join od (name s @ ''.mp4'')) mode None]
         \<and> (\<forall>res st3. batch_extract_clips E vp (pre @ s # post) od mode st = (Inr res, st3)
                \<and> name s \<notin> name ` set post \<longrightarrow> map_of res (name s) = Some False)"
proof -
  from batch_extract_clips_created [OF assms(1)]
  obtain w where mk: "makedirs E (world st) od = (True, w)"
    and pre: "batch_loop E vp od mode pre [] (st\<lparr>world := w\<rparr>) = (Inr r1, st1)" by blast
  have step: "batch_loop E vp od mode (s # post) r1 st1 =
                batch_loop E vp od mode post (AList.update (name s) False r1) st2"
    using assms(2) by (simp add: Let_def)
  have a: "batch_extract_clips E vp (pre @ s # post) od mode st =
             batch_loop E vp od mode post (AList.update (name s) False r1) st2"
    using pre step by (simp add: batch_extract_clips_loop [OF mk] batch_loop_append)
  have "calls (snd (extract_clip E vp (start_time s) (end_time s)
                 (path_join od (name s @ ''.mp4'')) mode None st1)) =
        calls st1 @ [trimx_path E # extract_clip_args E vp (start_time s) (end_time s)
                (path_join od (name s @ ''.mp4'')) mode None]"
    by (simp add: extract_clip_def calls_catch_called calls_run_command)
  then have b: "calls st2 = calls st1 @
             [trimx_path E # extract_clip_args E vp (start_time s) (end_time s)
                (path_join od (name s @ ''.mp4'')) mode None]"
    by (simp add: assms(2))
  have c: "map_of res (name s) = Some False"
    if "batch_extract_clips E vp (pre @ s # post) od mode st = (Inr res, st3)"
      and "name s \<notin> name ` set post" for res st3
  proof -
    from that(1) a have "batch_loop E vp od mode post (AList.update (name s) False r1) st2 = (Inr res, st3)"
      by simp
    from batch_loop_untouched [OF this that(2)] show ?thesis by (simp add: update_conv')
  qed
  have c': "\<forall>res st3. batch_extract_clips E vp (pre @ s # post) od mode st = (Inr res, st3)
                \<and> name s \<notin> name ` set post \<longrightarrow> map_of res (name s) = Some False"
    by (intro allI impI, elim conjE) (rule c)
  show ?thesis by (intro conjI a b c')
qed

theorem C6_failed_extraction_is_isolated_witness:
  "batch_extract_clips flaky_env ''in.mp4'' [seg 5 10 ''a''] ''clips'' ''auto'' st0 =
     (Inr [(''a'', True)],
      \<lparr>world = 2, calls = [demo_clip ''5.0'' ''10.0'' ''a'', demo_verify ''5.0'' ''10.0'' ''a'']\<rparr>)
   \<and> fst (extract_clip flaky_env ''in.mp4'' 10 15 ''clips/b.mp4'' ''auto'' None
         \<lparr>world = 2, calls = [demo_clip ''5.0'' ''10.0'' ''a'', demo_verify ''5.0'' ''10.0'' ''a'']\<rparr>)
       = Inr False
   \<and> batch_extract_clips flaky_env ''in.mp4'' [seg 5 10 ''a'', seg 10 15 ''b'', seg 5 15 ''c'']
       ''clips'' ''auto'' st0 =
     (Inr [(''a'', True), (''b'', False), (''c'', True)],
      \<lparr>world = 5,
       calls = [demo_clip ''5.0'' ''10.0'' ''a'', demo_verify ''5.0'' ''10.0'' ''a'',
                demo_clip ''10.0'' ''15.0'' ''b'',
                demo_clip ''5.0'' ''15.0'' ''c'', demo_verify ''5.0'' ''15.0'' ''c'']\<rparr>)"
proof -
  note t = C6_failed_extraction_is_isolated [OF flaky_batch_a flaky_extract_b, of "[seg 5 15 ''c'']"]
  have "batch_extract_clips flaky_env ''in.mp4'' ([seg 5 10 ''a''] @ seg 10 15 ''b'' # [seg 5 15 ''c''])
       ''clips'' ''auto'' st0 =
     (Inr [(''a'', True), (''b'', False), (''c'', True)],
      \<lparr>world = 5,
       calls = [demo_clip ''5.0'' ''10.0'' ''a'', demo_verify ''5.0'' ''10.0'' ''a'',
                demo_clip ''10.0'' ''15.0'' ''b'',
                demo_clip ''5.0'' ''15.0'' ''c'', demo_verify ''5.0'' ''15.0'' ''c'']\<rparr>)"
    using t [THEN conjunct1] flaky_loop_c by (simp add: seg_def)
  moreover have "fst (extract_clip flaky_env ''in.mp4'' 10 15 ''clips/b.mp4'' ''auto'' None
         \<lparr>world = 2, calls = [demo_clip ''5.0'' ''10.0'' ''a'', demo_verify ''5.0'' ''10.0'' ''a'']\<rparr>)
       = Inr False"
    using flaky_extract_b by (simp add: seg_def path_join_def)
  ultimately show ?thesis using flaky_batch_a by simp
qed


text \<open>
  C8: when the batch returns a mapping, its keys are exactly the names of the segments;
  with unique names the keys are the names in input order and the mapping has as many
  entries as there are segments. With a repeated name no error is raised and the entry
  holds the outcome of the last segment of that name: whatever an earlier segment of the
  same name recorded is overwritten.
\<close>

theorem C8_result_keys_and_overwrite:
  assumes "batch_extract_clips E vp segs od mode st = (Inr res, st')"
  shows "(distinct (map name segs) \<longrightarrow> map fst res = map name segs \<and> length res = length segs)
         \<and> fst ` set res = name ` set segs
         \<and> (\<forall>pre s post r1 st1 ok st2.
               segs = pre @ s # post \<and> name s \<notin> name ` set post
               \<and> batch_extract_clips E vp pre od mode st = (Inr r1, st1)
               \<and> batch_loop E vp od mode [s] [] st1 = (Inr [(name s, ok)], st2)
               \<longrightarrow> map_of res (name s) = Some ok)"
proof -
  from batch_extract_clips_created [OF assms]
  obtain w where mk: "makedirs E (world st) od = (True, w)"
    and loop: "batch_loop E vp od mode segs [] (st\<lparr>world := w\<rparr>) = (Inr res, st')" by blast
  have a: "map fst res = map name segs \<and> length res = length segs" if d: "distinct (map name segs)"
  proof -
    have "name ` set segs \<inter> fst ` set ([]::(string \<times> bool) list) = {}" by simp
    with loop d have "map fst res = map fst ([]::(string \<times> bool) list) @ map name segs"
      by (rule batch_loop_keys_distinct)
    then have m: "map fst res = map name segs" by simp
    have "length res = length (map fst res)" by simp
    also have "\<dots> = length (map name segs)" by (simp only: m)
    finally have "length res = length segs" by simp
    with m show ?thesis by (rule conjI)
  qed
  have b: "fst ` set res = name ` set segs"
    using batch_loop_key_set [OF loop] by simp
  have c: "map_of res (name s) = Some ok"
    if segs: "segs = pre @ s # post" and last: "name s \<notin> name ` set post"
      and p: "batch_extract_clips E vp pre od mode st = (Inr r1, st1)"
      and single: "batch_loop E vp od mode [s] [] st1 = (Inr [(name s, ok)], st2)"
    for pre s post r1 st1 ok st2
  proof -
    have p': "batch_loop E vp od mode pre [] (st\<lparr>world := w\<rparr>) = (Inr r1, st1)"
      using p by (simp add: batch_extract_clips_loop [OF mk])
    have s': "batch_loop E vp od mode [s] r1 st1 = (Inr (AList.update (name s) ok r1), st2)"
      using single by (rule batch_loop_single)
    have "batch_loop E vp od mode ((pre @ [s]) @ post) [] (st\<lparr>world := w\<rparr>) =
            batch_loop E vp od mode post (AList.update (name s) ok r1) st2"
      using p' s' by (simp only: batch_loop_append prod.case sum.case)
    then have "batch_loop E vp od mode post (AList.update (name s) ok r1) st2 = (Inr res, st')"
      using loop segs by simp
    from batch_loop_untouched [OF this last] show ?thesis by (simp add: update_conv')
  qed
  have a': "distinct (map name segs) \<longrightarrow> map fst res = map name segs \<and> length res = length segs"
    by (intro impI) (rule a)
  have c': "\<forall>pre s post r1 st1 ok st2.
               segs = pre @ s # post \<and> name s \<notin> name ` set post
               \<and> batch_extract_clips E vp pre od mode st = (Inr r1, st1)
               \<and> batch_loop E vp od mode [s] [] st1 = (Inr [(name s, ok)], st2)
               \<longrightarrow> map_of res (name s) = Some ok"
    by (intro allI impI, elim conjE) (rule c)
  show ?thesis by (intro conjI a' b c')
qed


theorem C8_result_keys_and_overwrite_witness:
  "fst (batch_extract_clips flaky_env ''in.mp4'' [seg 5 10 ''a'', seg 10 15 ''b'', seg 5 15 ''c'']
         ''clips'' ''auto'' st0) = Inr [(''a'', True), (''b'', False), (''c'', True)]
   \<and> distinct (map name [seg 5 10 ''a'', seg 10 15 ''b'', seg 5 15 ''c''])
   \<and> map fst [(''a'', True), (''b'', False), (''c'', True)] =
       map name [seg 5 10 ''a'', seg 10 15 ''b'', seg 5 15 ''c'']
   \<and> length [(''a'', True), (''b'', False), (''c'', True)] =
       length [seg 5 10 ''a'', seg 10 15 ''b'', seg 5 15 ''c'']
   \<and> fst (batch_extract_clips flaky_env ''in.mp4'' [seg 5 10 ''a''] ''clips'' ''auto'' st0) =
       Inr [(''a'', True)]
   \<and> fst (batch_extract_clips flaky_env ''in.mp4'' [seg 5 10 ''a'', seg 10 15 ''a''] ''clips'' ''auto'' st0) =
       Inr [(''a'', False)]
   \<and> map_of [(''a'', False)] (name (seg 10 15 ''a'')) = Some False"
proof -
  have d: "distinct (map name [seg 5 10 ''a'', seg 10 15 ''b'', seg 5 15 ''c''])"
    by (simp add: seg_def)
  from C8_result_keys_and_overwrite [OF flaky_batch_abc, THEN conjunct1, rule_format, OF d]
  have k: "map fst [(''a'', True), (''b'', False), (''c'', True)] =
             map name [seg 5 10 ''a'', seg 10 15 ''b'', seg 5 15 ''c'']
           \<and> length [(''a'', True), (''b'', False), (''c'', True)] =
             length [seg 5 10 ''a'', seg 10 15 ''b'', seg 5 15 ''c'']" .
  have sp: "[seg 5 10 ''a'', seg 10 15 ''a''] = [seg 5 10 ''a''] @ seg 10 15 ''a'' # []
            \<and> name (seg 10 15 ''a'') \<notin> name ` set []
            \<and> batch_extract_clips flaky_env ''in.mp4'' [seg 5 10 ''a''] ''clips'' ''auto'' st0 =
                (Inr [(''a'', True)],
                 \<lparr>world = 2, calls = [demo_clip ''5.0'' ''10.0'' ''a'', demo_verify ''5.0'' ''10.0'' ''a'']\<rparr>)
            \<and> batch_loop flaky_env ''in.mp4'' ''clips'' ''auto'' [seg 10 15 ''a''] []
                \<lparr>world = 2, calls = [demo_clip ''5.0'' ''10.0'' ''a'', demo_verify ''5.0'' ''10.0'' ''a'']\<rparr> =
                (Inr [(name (seg 10 15 ''a''), False)],
                 \<lparr>world = 3,
                  calls = [demo_clip ''5.0'' ''10.0'' ''a'', demo_verify ''5.0'' ''10.0'' ''a'',
                           demo_clip ''10.0'' ''15.0'' ''a'']\<rparr>)"
    using flaky_batch_a flaky_loop_a2 by simp
  from C8_result_keys_and_overwrite [OF flaky_batch_aa, THEN conjunct2, THEN conjunct2, rule_format, OF sp]
  have o: "map_of [(''a'', False)] (name (seg 10 15 ''a'')) = Some False" .
  show ?thesis using d k o flaky_batch_abc flaky_batch_a flaky_batch_aa by simp
qed

end
